theory Spec2Isabelle
  imports Main "HOL-Library.Word" "HOL-Library.Sublist" "HOL-Library.AList"
begin

section \<open>JavaScript values\<close>

text \<open>
  The serializer of \<^verbatim>\<open>JSONFrameSerializer\<close> works on dynamically typed values. A value is
  one of the shapes the code distinguishes with \<^verbatim>\<open>typeof\<close>, \<^verbatim>\<open>instanceof Uint8Array\<close> and
  \<^verbatim>\<open>Array.isArray\<close>. Finite numbers are integers here; fractional doubles are outside
  the model. An array carries whether its \<^verbatim>\<open>__isTuple__\<close> property is set (to
  \<^verbatim>\<open>true\<close>). An object carries the name of the class it is an instance of
  (\<^verbatim>\<open>Object\<close> for a literal) and its own enumerable properties in enumeration order,
  each key once. A function carries its \<^verbatim>\<open>name\<close> and its source text. A string is a
  sequence of characters with codes below 256. Cyclic
  structures, getters, \<^verbatim>\<open>toJSON\<close> methods, symbols and big integers have no
  counterpart, and a class prototype contributes nothing but \<^verbatim>\<open>constructor\<close>.
\<close>

datatype jsnum = Finite int | NaN | PosInfinity | NegInfinity

datatype jsval =
    VUndefined
  | VNull
  | VBool bool
  | VNumber jsnum
  | VString string
  | VBytes "8 word list"
  | VArray bool "jsval list"
  | VObject string "(string \<times> jsval) list"
  | VFunction string string

type_synonym props = "(string \<times> jsval) list"

datatype error = TypeError | SyntaxError | InvalidCharacterError | RangeError

text \<open>The three shapes a decoded payload resolves to.\<close>

datatype result = Audio "16 word list" | Message jsval | Raw jsval

subsection \<open>Property access\<close>

definition digit_char :: "nat \<Rightarrow> char" where
  "digit_char d = char_of (48 + d)"

fun dec :: "nat \<Rightarrow> string" where
  "dec n = (if n < 10 then [digit_char n] else dec (n div 10) @ [digit_char (n mod 10)])"

declare dec.simps [simp del]

definition index_props :: "jsval list \<Rightarrow> props" where
  "index_props xs = zip (map dec [0..<length xs]) xs"

text \<open>The own enumerable properties, as \<^verbatim>\<open>for (const key in v)\<close> filtered by
  \<^verbatim>\<open>hasOwnProperty\<close> visits them.\<close>

fun own_props :: "jsval \<Rightarrow> props" where
  "own_props (VObject c kvs) = kvs"
| "own_props (VArray t xs) =
     index_props xs @ (if t then [(''__isTuple__'', VBool True)] else [])"
| "own_props (VBytes bs) = index_props (map (\<lambda>b. VNumber (Finite (uint b))) bs)"
| "own_props (VString s) = index_props (map (\<lambda>c. VString [c]) s)"
| "own_props _ = []"

definition has_key :: "props \<Rightarrow> string \<Rightarrow> bool" where
  "has_key kvs k \<longleftrightarrow> k \<in> set (map fst kvs)"

definition lookup :: "props \<Rightarrow> string \<Rightarrow> jsval" where
  "lookup kvs k = (case map_of kvs k of None \<Rightarrow> VUndefined | Some v \<Rightarrow> v)"

text \<open>\<^verbatim>\<open>v[k]\<close> for the keys the serializer reads; none of them is inherited, and a
  function owns its \<^verbatim>\<open>name\<close>. Reading a property of \<^verbatim>\<open>undefined\<close> or \<^verbatim>\<open>null\<close> throws.\<close>

fun own_prop :: "jsval \<Rightarrow> string \<Rightarrow> jsval" where
  "own_prop (VFunction n src) k = (if k = ''name'' then VString n else VUndefined)"
| "own_prop v k = lookup (own_props v) k"

fun get :: "jsval \<Rightarrow> string \<Rightarrow> error + jsval" where
  "get VUndefined k = Inl TypeError"
| "get VNull k = Inl TypeError"
| "get v k = Inr (own_prop v k)"

text \<open>\<^verbatim>\<open>Object.prototype.hasOwnProperty.call(v, k)\<close>.\<close>

fun hasOwnProperty :: "jsval \<Rightarrow> string \<Rightarrow> bool" where
  "hasOwnProperty (VFunction n src) k = (k = ''name'')"
| "hasOwnProperty v k = has_key (own_props v) k"

text \<open>\<^verbatim>\<open>o[k] = v\<close> on a plain object: the value is replaced in place or the key is
  appended. Assigning to \<^verbatim>\<open>__proto__\<close> creates no own property. JavaScript enumerates
  integer-like keys first; here a key stays where it was written, and the statements
  below are about the value found at a key, not about the order.\<close>

definition assign :: "props \<Rightarrow> string \<Rightarrow> jsval \<Rightarrow> props" where
  "assign kvs k v = (if k = ''__proto__'' then kvs else AList.update k v kvs)"

definition object_prototype_keys :: "string list" where
  "object_prototype_keys =
     [''constructor'', ''hasOwnProperty'', ''isPrototypeOf'', ''propertyIsEnumerable'',
      ''toLocaleString'', ''toString'', ''valueOf'', ''__defineGetter__'',
      ''__defineSetter__'', ''__lookupGetter__'', ''__lookupSetter__'', ''__proto__'']"

text \<open>\<^verbatim>\<open>k in o\<close> for a plain object: an own key or one inherited from
  \<^verbatim>\<open>Object.prototype\<close>.\<close>

definition in_object :: "string \<Rightarrow> props \<Rightarrow> bool" where
  "in_object k kvs \<longleftrightarrow> has_key kvs k \<or> k \<in> set object_prototype_keys"

fun truthy :: "jsval \<Rightarrow> bool" where
  "truthy VUndefined = False"
| "truthy VNull = False"
| "truthy (VBool b) = b"
| "truthy (VNumber (Finite n)) = (n \<noteq> 0)"
| "truthy (VNumber NaN) = False"
| "truthy (VString s) = (s \<noteq> [])"
| "truthy _ = True"

text \<open>\<^verbatim>\<open>frame.constructor.name\<close>: the own property \<^verbatim>\<open>constructor\<close> when there is one,
  the class otherwise.\<close>

fun name_of :: "jsval \<Rightarrow> error + jsval" where
  "name_of VUndefined = Inl TypeError"
| "name_of VNull = Inl TypeError"
| "name_of (VFunction n src) = Inr (VString n)"
| "name_of (VObject c kvs) = Inr (lookup kvs ''name'')"
| "name_of _ = Inr VUndefined"

fun constructor_name :: "jsval \<Rightarrow> error + jsval" where
  "constructor_name VUndefined = Inl TypeError"
| "constructor_name VNull = Inl TypeError"
| "constructor_name (VBool b) = Inr (VString ''Boolean'')"
| "constructor_name (VNumber n) = Inr (VString ''Number'')"
| "constructor_name (VString s) = Inr (VString ''String'')"
| "constructor_name (VBytes bs) = Inr (VString ''Uint8Array'')"
| "constructor_name (VArray t xs) = Inr (VString ''Array'')"
| "constructor_name (VFunction n src) = Inr (VString ''Function'')"
| "constructor_name (VObject c kvs) =
     (case map_of kvs ''constructor'' of
        None \<Rightarrow> Inr (VString c)
      | Some ctor \<Rightarrow> name_of ctor)"

section \<open>JSON text\<close>

text \<open>
  \<^verbatim>\<open>JSON.stringify\<close> and \<^verbatim>\<open>JSON.parse\<close> are built-ins of the language. A JSON text is
  represented by the document it denotes, so \<^verbatim>\<open>to_json\<close> is \<^verbatim>\<open>JSON.stringify\<close> up to
  the spelling of the text and \<^verbatim>\<open>of_json\<close> is \<^verbatim>\<open>JSON.parse\<close> of a well-formed text.
  \<^verbatim>\<open>to_json\<close> returns \<^verbatim>\<open>None\<close> where \<^verbatim>\<open>JSON.stringify\<close> returns \<^verbatim>\<open>undefined\<close>: such a
  property is left out of an object and written \<^verbatim>\<open>null\<close> in an array. A non-finite
  number is written \<^verbatim>\<open>null\<close>, a typed array as an object of its indices, and an
  array's extra properties are not written.
\<close>

datatype json =
    JNull
  | JBool bool
  | JNumber int
  | JString string
  | JArray "json list"
  | JObject "(string \<times> json) list"

fun to_json :: "jsval \<Rightarrow> json option" where
  "to_json VUndefined = None"
| "to_json (VFunction n src) = None"
| "to_json VNull = Some JNull"
| "to_json (VBool b) = Some (JBool b)"
| "to_json (VNumber (Finite n)) = Some (JNumber n)"
| "to_json (VNumber _) = Some JNull"
| "to_json (VString s) = Some (JString s)"
| "to_json (VBytes bs) = Some (JObject (zip (map dec [0..<length bs]) (map (\<lambda>b. JNumber (uint b)) bs)))"
| "to_json (VArray t xs) =
     Some (JArray (map (\<lambda>x. case to_json x of None \<Rightarrow> JNull | Some j \<Rightarrow> j) xs))"
| "to_json (VObject c kvs) =
     Some (JObject (concat (map (\<lambda>(k, v). case to_json v of None \<Rightarrow> [] | Some j \<Rightarrow> [(k, j)]) kvs)))"

text \<open>A key written twice in a text keeps its first position and its last value.\<close>

definition define_all :: "props \<Rightarrow> props" where
  "define_all kvs = foldl (\<lambda>acc (k, v). AList.update k v acc) [] kvs"

fun of_json :: "json \<Rightarrow> jsval" where
  "of_json JNull = VNull"
| "of_json (JBool b) = VBool b"
| "of_json (JNumber n) = VNumber (Finite n)"
| "of_json (JString s) = VString s"
| "of_json (JArray js) = VArray False (map of_json js)"
| "of_json (JObject kvs) = VObject ''Object'' (define_all (map (\<lambda>(k, j). (k, of_json j)) kvs))"

text \<open>
  What \<^verbatim>\<open>deserialize\<close> is given: a string that is the text of a JSON document, a
  string that is not JSON (\<^verbatim>\<open>JSON.parse\<close> throws a \<^verbatim>\<open>SyntaxError\<close> on it), or a value that
  is not a string and is used as it is.
\<close>

datatype payload = Text json | Malformed string | Parsed jsval

fun JSON_parse :: "payload \<Rightarrow> error + jsval" where
  "JSON_parse (Text j) = Inr (of_json j)"
| "JSON_parse (Malformed s) = Inl SyntaxError"
| "JSON_parse (Parsed v) = Inr v"

section \<open>Base64\<close>

text \<open>\<^verbatim>\<open>btoa\<close> on a string of characters below 256, and \<^verbatim>\<open>atob\<close>, the forgiving
  decoder: whitespace is dropped, padding is optional, and any other string throws.\<close>

definition b64_char :: "nat \<Rightarrow> char" where
  "b64_char n =
     (if n < 26 then char_of (65 + n)
      else if n < 52 then char_of (71 + n)
      else if n < 62 then char_of (n - 4)
      else if n = 62 then CHR ''+'' else CHR ''/'')"

definition b64_index :: "char \<Rightarrow> nat option" where
  "b64_index c =
     (let k = (of_char c :: nat) in
      if 65 \<le> k \<and> k \<le> 90 then Some (k - 65)
      else if 97 \<le> k \<and> k \<le> 122 then Some (k - 71)
      else if 48 \<le> k \<and> k \<le> 57 then Some (k + 4)
      else if k = 43 then Some 62
      else if k = 47 then Some 63
      else None)"

fun sextets :: "nat list \<Rightarrow> nat list" where
  "sextets (a # b # c # r) =
     [a div 4, (a mod 4) * 16 + b div 16, (b mod 16) * 4 + c div 64, c mod 64] @ sextets r"
| "sextets [a, b] = [a div 4, (a mod 4) * 16 + b div 16, (b mod 16) * 4]"
| "sextets [a] = [a div 4, (a mod 4) * 16]"
| "sextets [] = []"

definition btoa :: "string \<Rightarrow> string" where
  "btoa s =
     map b64_char (sextets (map of_char s)) @ replicate ((3 - length s mod 3) mod 3) CHR ''=''"


fun octets :: "nat list \<Rightarrow> nat list" where
  "octets (p # q # r # s # rest) =
     [p * 4 + q div 16, (q mod 16) * 16 + r div 4, (r mod 4) * 64 + s] @ octets rest"
| "octets [p, q, r] = [p * 4 + q div 16, (q mod 16) * 16 + r div 4]"
| "octets [p, q] = [p * 4 + q div 16]"
| "octets _ = []"

definition is_ascii_whitespace :: "char \<Rightarrow> bool" where
  "is_ascii_whitespace c \<longleftrightarrow> (of_char c :: nat) \<in> {9, 10, 12, 13, 32}"

definition strip_padding :: "string \<Rightarrow> string" where
  "strip_padding s =
     (if length s mod 4 = 0 \<and> s \<noteq> [] \<and> last s = CHR ''='' then
        (if butlast s \<noteq> [] \<and> last (butlast s) = CHR ''='' then butlast (butlast s) else butlast s)
      else s)"

fun those_opt :: "'a option list \<Rightarrow> 'a list option" where
  "those_opt [] = Some []"
| "those_opt (None # _) = None"
| "those_opt (Some x # xs) = (case those_opt xs of None \<Rightarrow> None | Some ys \<Rightarrow> Some (x # ys))"

definition atob :: "string \<Rightarrow> string option" where
  "atob s =
     (let t = strip_padding (filter (\<lambda>c. \<not> is_ascii_whitespace c) s) in
      if length t mod 4 = 1 then None
      else case those_opt (map b64_index t) of
             None \<Rightarrow> None
           | Some ds \<Rightarrow> Some (map char_of (octets ds)))"



text \<open>\<^verbatim>\<open>String.fromCharCode(...bytes)\<close> and the loop over \<^verbatim>\<open>charCodeAt\<close>.\<close>

definition fromCharCode :: "8 word list \<Rightarrow> string" where
  "fromCharCode bs = map (\<lambda>b. char_of (unat b)) bs"

definition charCodes :: "string \<Rightarrow> 8 word list" where
  "charCodes s = map (\<lambda>c. of_nat (of_char c)) s"

text \<open>\<^verbatim>\<open>String(v)\<close>, which \<^verbatim>\<open>atob\<close> applies to an argument that is not a string.\<close>

fun join_comma :: "string list \<Rightarrow> string" where
  "join_comma [] = []"
| "join_comma [s] = s"
| "join_comma (s # t # r) = s @ '','' @ join_comma (t # r)"

fun ToString :: "jsval \<Rightarrow> string" where
  "ToString VUndefined = ''undefined''"
| "ToString VNull = ''null''"
| "ToString (VBool b) = (if b then ''true'' else ''false'')"
| "ToString (VNumber (Finite n)) = (if n < 0 then ''-'' @ dec (nat (- n)) else dec (nat n))"
| "ToString (VNumber NaN) = ''NaN''"
| "ToString (VNumber PosInfinity) = ''Infinity''"
| "ToString (VNumber NegInfinity) = ''-Infinity''"
| "ToString (VString s) = s"
| "ToString (VBytes bs) = join_comma (map (\<lambda>b. dec (unat b)) bs)"
| "ToString (VArray t xs) =
     join_comma (map (\<lambda>x. if x = VNull \<or> x = VUndefined then [] else ToString x) xs)"
| "ToString (VObject c kvs) = ''[object Object]''"
| "ToString (VFunction n src) = src"

section \<open>Serializing a frame\<close>

definition well_known :: "string list" where
  "well_known =
     [''id'', ''name'', ''pts'', ''metadata'', ''transport_source'', ''transport_destination'']"

text \<open>\<^verbatim>\<open>key.startsWith("___") || key.startsWith("__")\<close>.\<close>

definition marker_prefixed :: "string \<Rightarrow> bool" where
  "marker_prefixed key \<longleftrightarrow> prefix ''___'' key \<or> prefix ''__'' key"

definition bytes_marker :: "string \<Rightarrow> string" where
  "bytes_marker key = ''__'' @ key @ ''_is_bytes__''"

definition tuple_marker :: "string \<Rightarrow> string" where
  "tuple_marker key = ''__'' @ key @ ''_is_tuple__''"

text \<open>The head of \<^verbatim>\<open>_frameToDict\<close>: the type tag, then the base fields the frame owns,
  copied as they are.\<close>

definition base_fields :: "jsval \<Rightarrow> jsval \<Rightarrow> props" where
  "base_fields frame tag =
     foldl (\<lambda>fd k. if hasOwnProperty frame k then assign fd k (own_prop frame k) else fd)
       [(''___frame___'', tag)] well_known"

fun is_bytes :: "jsval \<Rightarrow> bool" where
  "is_bytes (VBytes bs) = True"
| "is_bytes _ = False"

fun is_tuple :: "jsval \<Rightarrow> bool" where
  "is_tuple (VArray t xs) = t"
| "is_tuple _ = False"

text \<open>The two marker assignments a field gets before its value is stored.\<close>

definition mark :: "string \<Rightarrow> jsval \<Rightarrow> props \<Rightarrow> props" where
  "mark key v fd =
     (let fd1 = (if is_bytes v then assign fd (bytes_marker key) (VBool True) else fd)
      in if is_tuple v then assign fd1 (tuple_marker key) (VBool True) else fd1)"

text \<open>
  \<^verbatim>\<open>_serializeValue\<close> and the loop of \<^verbatim>\<open>_frameToDict\<close> call each other. Each loop is a
  function of the properties still to visit and the object built so far. The only
  exception is the \<^verbatim>\<open>TypeError\<close> of \<^verbatim>\<open>frame.constructor.name\<close> on a nested frame.
\<close>

function serializeValue :: "jsval \<Rightarrow> error + jsval"
  and serializeItems :: "jsval list \<Rightarrow> error + jsval list"
  and serializeProps :: "props \<Rightarrow> props \<Rightarrow> error + props"
  and frameToDict_loop :: "props \<Rightarrow> props \<Rightarrow> error + props"
where
  "serializeValue VNull = Inr VNull"
| "serializeValue (VString s) = Inr (VString s)"
| "serializeValue (VNumber n) = Inr (VNumber n)"
| "serializeValue (VBool b) = Inr (VBool b)"
| "serializeValue (VBytes bs) = Inr (VString (btoa (fromCharCode bs)))"
| "serializeValue (VArray t xs) =
     (case serializeItems xs of Inl e \<Rightarrow> Inl e | Inr ys \<Rightarrow> Inr (VArray False ys))"
| "serializeValue (VObject c kvs) =
     (if has_key kvs ''___frame___'' then
        (case constructor_name (VObject c kvs) of
           Inl e \<Rightarrow> Inl e
         | Inr tag \<Rightarrow>
             (case frameToDict_loop kvs (base_fields (VObject c kvs) tag) of
                Inl e \<Rightarrow> Inl e
              | Inr fd \<Rightarrow> Inr (VObject ''Object'' fd)))
      else
        (case serializeProps kvs [] of
           Inl e \<Rightarrow> Inl e
         | Inr r \<Rightarrow> Inr (VObject ''Object'' r)))"
| "serializeValue VUndefined = Inr (VString ''undefined'')"
| "serializeValue (VFunction n src) = Inr (VString src)"
| "serializeItems [] = Inr []"
| "serializeItems (x # xs) =
     (case serializeValue x of
        Inl e \<Rightarrow> Inl e
      | Inr y \<Rightarrow> (case serializeItems xs of Inl e \<Rightarrow> Inl e | Inr ys \<Rightarrow> Inr (y # ys)))"
| "serializeProps [] r = Inr r"
| "serializeProps ((key, v) # rest) r =
     (case serializeValue v of
        Inl e \<Rightarrow> Inl e
      | Inr sv \<Rightarrow> serializeProps rest (assign r key sv))"
| "frameToDict_loop [] fd = Inr fd"
| "frameToDict_loop ((key, v) # rest) fd =
     (if in_object key fd \<or> marker_prefixed key then frameToDict_loop rest fd
      else
        (case serializeValue v of
           Inl e \<Rightarrow> Inl e
         | Inr sv \<Rightarrow> frameToDict_loop rest (assign (mark key v fd) key sv)))"
  by pat_completeness auto
termination
  by (relation "measure (\<lambda>x. case x of
        Inl (Inl v) \<Rightarrow> size v
      | Inl (Inr xs) \<Rightarrow> size_list size xs
      | Inr (Inl (kvs, r)) \<Rightarrow> size_list (size_prod (\<lambda>_. 0) size) kvs
      | Inr (Inr (kvs, fd)) \<Rightarrow> size_list (size_prod (\<lambda>_. 0) size) kvs)")
    auto

text \<open>\<^verbatim>\<open>_frameToDict\<close> on any value.\<close>

definition frameToDict :: "jsval \<Rightarrow> error + props" where
  "frameToDict frame =
     (case constructor_name frame of
        Inl e \<Rightarrow> Inl e
      | Inr tag \<Rightarrow> frameToDict_loop (own_props frame) (base_fields frame tag))"

text \<open>
  \<^verbatim>\<open>serialize\<close>: \<^verbatim>\<open>None\<close> is the result \<^verbatim>\<open>null\<close>, \<^verbatim>\<open>Some j\<close> the text of \<^verbatim>\<open>j\<close>, and \<^verbatim>\<open>Inl\<close> an
  exception that leaves the method. The handler evaluates
  \<^verbatim>\<open>frame.constructor.name\<close> for its log line before it returns \<^verbatim>\<open>null\<close>.
\<close>

definition serialize :: "jsval \<Rightarrow> error + json option" where
  "serialize frame =
     (if frame = VNull then Inr None
      else
        (case frameToDict frame of
           Inr frameData \<Rightarrow> Inr (to_json (VObject ''Object'' frameData))
         | Inl e \<Rightarrow>
             (case constructor_name frame of
                Inl e' \<Rightarrow> Inl e'
              | Inr tag \<Rightarrow> Inr None)))"

text \<open>\<^verbatim>\<open>serializeAudio\<close> and \<^verbatim>\<open>serializeMessage\<close> return the text of an object literal.\<close>

definition stringify_object :: "props \<Rightarrow> json" where
  "stringify_object kvs =
     JObject (concat (map (\<lambda>(k, v). case to_json v of None \<Rightarrow> [] | Some j \<Rightarrow> [(k, j)]) kvs))"


definition serializeMessage :: "jsval \<Rightarrow> json" where
  "serializeMessage msg =
     stringify_object [(''___type___'', VString ''message''), (''message'', msg)]"

section \<open>Rebuilding a frame\<close>

text \<open>The tail of \<^verbatim>\<open>_dictToFrame\<close>: the object literal that spreads the rebuilt fields
  and adds \<^verbatim>\<open>constructor\<close>, then the base fields copied from the dictionary.\<close>

definition finish_frame :: "props \<Rightarrow> props \<Rightarrow> props" where
  "finish_frame frameDict constructorArgs =
     foldl (\<lambda>frame k. if in_object k frameDict then assign frame k (lookup frameDict k) else frame)
       (AList.update ''constructor'' (VObject ''Object'' [(''name'', lookup frameDict ''___frame___'')])
          constructorArgs)
       well_known"

text \<open>\<^verbatim>\<open>typeof item === "object" && item !== null && "___frame___" in item\<close>.\<close>

fun typeof_object :: "jsval \<Rightarrow> bool" where
  "typeof_object (VObject c kvs) = True"
| "typeof_object (VArray t xs) = True"
| "typeof_object (VBytes bs) = True"
| "typeof_object _ = False"

definition frame_like :: "jsval \<Rightarrow> bool" where
  "frame_like item \<longleftrightarrow> typeof_object item \<and> has_key (own_props item) ''___frame___''"

text \<open>
  \<^verbatim>\<open>_deserializeValue\<close> and \<^verbatim>\<open>_dictToFrame\<close> call each other. The flags \<^verbatim>\<open>isBytes\<close> and
  \<^verbatim>\<open>isTuple\<close> are passed as the truth value the code tests. \<^verbatim>\<open>frameDict[key]\<close> is the
  value the loop finds beside \<^verbatim>\<open>key\<close>; the whole dictionary is kept for the marker
  lookups. \<^verbatim>\<open>_dictToFrame\<close> reads the type tag before its \<^verbatim>\<open>try\<close>, which throws on
  \<^verbatim>\<open>undefined\<close> and \<^verbatim>\<open>null\<close>, and only an object has a type tag; inside the \<^verbatim>\<open>try\<close> the
  only exception is that of \<^verbatim>\<open>atob\<close>, caught there.
\<close>

function (sequential) deserializeValue :: "jsval \<Rightarrow> bool \<Rightarrow> bool \<Rightarrow> error + jsval"
  and deserializeItems :: "jsval list \<Rightarrow> error + jsval list"
  and deserializeProps :: "props \<Rightarrow> props \<Rightarrow> error + props"
  and dictToFrame_loop :: "props \<Rightarrow> props \<Rightarrow> props \<Rightarrow> error + props"
  and dictToFrame :: "jsval \<Rightarrow> error + jsval"
where
  "deserializeValue VNull isBytes isTuple = Inr VNull"
| "deserializeValue (VString s) isBytes isTuple =
     (if isBytes then
        (case atob s of
           None \<Rightarrow> Inl InvalidCharacterError
         | Some binaryString \<Rightarrow> Inr (VBytes (charCodes binaryString)))
      else Inr (VString s))"
| "deserializeValue (VNumber n) isBytes isTuple = Inr (VNumber n)"
| "deserializeValue (VBool b) isBytes isTuple = Inr (VBool b)"
| "deserializeValue (VArray t xs) isBytes isTuple =
     (case deserializeItems xs of Inl e \<Rightarrow> Inl e | Inr ys \<Rightarrow> Inr (VArray isTuple ys))"
| "deserializeValue (VObject c kvs) isBytes isTuple =
     (if has_key kvs ''___frame___'' then dictToFrame (VObject c kvs)
      else
        (case deserializeProps kvs [] of
           Inl e \<Rightarrow> Inl e
         | Inr r \<Rightarrow> Inr (VObject ''Object'' r)))"
| "deserializeValue (VBytes bs) isBytes isTuple =
     Inr (VObject ''Object'' (own_props (VBytes bs)))"
| "deserializeValue VUndefined isBytes isTuple = Inr VUndefined"
| "deserializeValue (VFunction n src) isBytes isTuple = Inr (VFunction n src)"
| "deserializeItems [] = Inr []"
| "deserializeItems (item # xs) =
     (case (if frame_like item then dictToFrame item else deserializeValue item False False) of
        Inl e \<Rightarrow> Inl e
      | Inr y \<Rightarrow> (case deserializeItems xs of Inl e \<Rightarrow> Inl e | Inr ys \<Rightarrow> Inr (y # ys)))"
| "deserializeProps [] r = Inr r"
| "deserializeProps ((key, v) # rest) r =
     (case deserializeValue v False False of
        Inl e \<Rightarrow> Inl e
      | Inr dv \<Rightarrow> deserializeProps rest (assign r key dv))"
| "dictToFrame_loop [] frameDict constructorArgs = Inr constructorArgs"
| "dictToFrame_loop ((key, v) # rest) frameDict constructorArgs =
     (if key = ''___frame___'' \<or> marker_prefixed key then
        dictToFrame_loop rest frameDict constructorArgs
      else if key \<in> set well_known then dictToFrame_loop rest frameDict constructorArgs
      else
        (case deserializeValue v (truthy (lookup frameDict (bytes_marker key)))
                (truthy (lookup frameDict (tuple_marker key))) of
           Inl e \<Rightarrow> Inl e
         | Inr dv \<Rightarrow> dictToFrame_loop rest frameDict (assign constructorArgs key dv)))"
| "dictToFrame VUndefined = Inl TypeError"
| "dictToFrame VNull = Inl TypeError"
| "dictToFrame (VObject c frameDict) =
     (if \<not> truthy (lookup frameDict ''___frame___'') then Inr VNull
      else
        (case dictToFrame_loop frameDict frameDict [] of
           Inl e \<Rightarrow> Inr VNull
         | Inr constructorArgs \<Rightarrow> Inr (VObject ''Object'' (finish_frame frameDict constructorArgs))))"
| "dictToFrame v = Inr VNull"
  by pat_completeness auto
termination
  by (relation "measure (\<lambda>x. case x of
        Inl (Inl (v, b, t)) \<Rightarrow> 2 * size v + 1
      | Inl (Inr xs) \<Rightarrow> 2 * size_list size xs + 1
      | Inr (Inl (kvs, r)) \<Rightarrow> 2 * size_list (size_prod (\<lambda>_. 0) size) kvs + 1
      | Inr (Inr (Inl (kvs, fd, a))) \<Rightarrow> 2 * size_list (size_prod (\<lambda>_. 0) size) kvs + 1
      | Inr (Inr (Inr v)) \<Rightarrow> 2 * size v)")
    auto

text \<open>\<^verbatim>\<open>new Int16Array(bytes.buffer)\<close>: a view of the bytes as 16-bit samples, low byte
  first; a buffer of odd length throws a \<^verbatim>\<open>RangeError\<close>.\<close>

fun int16_view :: "8 word list \<Rightarrow> 16 word list" where
  "int16_view (lo # hi # rest) = (ucast lo + 256 * ucast hi) # int16_view rest"
| "int16_view _ = []"

definition Int16Array :: "8 word list \<Rightarrow> error + 16 word list" where
  "Int16Array bytes = (if even (length bytes) then Inr (int16_view bytes) else Inl RangeError)"

definition atob_value :: "jsval \<Rightarrow> error + string" where
  "atob_value v =
     (case atob (ToString v) of None \<Rightarrow> Inl InvalidCharacterError | Some s \<Rightarrow> Inr s)"

definition deserializeAudio :: "jsval \<Rightarrow> error + 16 word list" where
  "deserializeAudio frameDict =
     (case get frameDict ''audio'' of
        Inl e \<Rightarrow> Inl e
      | Inr a \<Rightarrow>
          (case atob_value a of
             Inl e \<Rightarrow> Inl e
           | Inr binaryString \<Rightarrow> Int16Array (charCodes binaryString)))"

text \<open>The body of the \<^verbatim>\<open>try\<close> in \<^verbatim>\<open>deserialize\<close>.\<close>

definition deserialize_try :: "payload \<Rightarrow> error + result" where
  "deserialize_try data =
     (case JSON_parse data of
        Inl e \<Rightarrow> Inl e
      | Inr frameDict \<Rightarrow>
          (case get frameDict ''___type___'' of
             Inl e \<Rightarrow> Inl e
           | Inr frameType \<Rightarrow>
               (if frameType = VString ''audio'' then
                  (case deserializeAudio frameDict of
                     Inl e \<Rightarrow> Inl e
                   | Inr audio \<Rightarrow> Inr (Audio audio))
                else if frameType = VString ''message'' then
                  (case get frameDict ''message'' of
                     Inl e \<Rightarrow> Inl e
                   | Inr m \<Rightarrow> Inr (Message m))
                else
                  (case dictToFrame frameDict of
                     Inl e \<Rightarrow> Inl e
                   | Inr frame \<Rightarrow> Inr (Raw frame)))))"

text \<open>\<^verbatim>\<open>deserialize\<close>: \<^verbatim>\<open>Inr r\<close> is a promise resolved with \<^verbatim>\<open>r\<close>, \<^verbatim>\<open>Inl\<close> an exception or a
  rejection. The handler resolves with a raw \<^verbatim>\<open>null\<close>.\<close>

definition deserialize :: "payload \<Rightarrow> error + result" where
  "deserialize data =
     (case deserialize_try data of
        Inr r \<Rightarrow> Inr r
      | Inl e \<Rightarrow> Inr (Raw VNull))"

section \<open>Values that survive the wire\<close>

text \<open>JSON-compatible data: what \<^verbatim>\<open>JSON.parse\<close> can return.\<close>

fun json_compatible :: "jsval \<Rightarrow> bool" where
  "json_compatible VNull = True"
| "json_compatible (VBool b) = True"
| "json_compatible (VNumber (Finite n)) = True"
| "json_compatible (VString s) = True"
| "json_compatible (VArray t xs) = (\<not> t \<and> list_all json_compatible xs)"
| "json_compatible (VObject c kvs) =
     (c = ''Object'' \<and> distinct (map fst kvs) \<and> list_all json_compatible (map snd kvs))"
| "json_compatible _ = False"



text \<open>A key that is the bytes marker or the tuple marker of some field.\<close>

definition marker_name :: "string \<Rightarrow> bool" where
  "marker_name k \<longleftrightarrow> (\<exists>k'. k = bytes_marker k' \<or> k = tuple_marker k')"

text \<open>The values that reach the last branch of \<^verbatim>\<open>_serializeValue\<close>: no rule is written
  for them and they are coerced with \<^verbatim>\<open>String\<close>.\<close>

fun no_rule :: "jsval \<Rightarrow> bool" where
  "no_rule VUndefined = True"
| "no_rule (VFunction n src) = True"
| "no_rule _ = False"


section \<open>Base64 round trip\<close>















section \<open>Failures of \<^verbatim>\<open>serialize\<close> and \<^verbatim>\<open>deserialize\<close>\<close>

text \<open>
  C5. \<^verbatim>\<open>serialize\<close> is meant to return a payload or \<^verbatim>\<open>null\<close> and never to throw. On
  \<^verbatim>\<open>undefined\<close> the conversion throws a \<^verbatim>\<open>TypeError\<close>, the handler catches it, and the
  handler's own log line reads \<^verbatim>\<open>frame.constructor.name\<close> and throws the same error out
  of the method.
\<close>

theorem serialize_undefined_throws: "serialize VUndefined = Inl TypeError"
  by (simp add: serialize_def frameToDict_def)

text \<open>The guard at the head of \<^verbatim>\<open>serialize\<close> covers \<^verbatim>\<open>null\<close> only. In general the method
  throws exactly when \<^verbatim>\<open>frame.constructor.name\<close> cannot be read.\<close>

lemma serialize_null: "serialize VNull = Inr None"
  by (simp add: serialize_def)

lemma serialize_throws_iff:
  "(\<exists>e. serialize frame = Inl e) \<longleftrightarrow> frame \<noteq> VNull \<and> (\<exists>e. constructor_name frame = Inl e)"
  by (auto simp: serialize_def frameToDict_def split: sum.splits)

text \<open>
  C4. \<^verbatim>\<open>deserialize\<close> never throws and always resolves: every payload gives a result;
  the string \<^verbatim>\<open>{not valid json\<close> and the value \<^verbatim>\<open>undefined\<close> give a raw \<^verbatim>\<open>null\<close>; and so
  does every payload on which parsing or rebuilding raises an exception.
\<close>

theorem deserialize_never_throws:
  "(\<exists>r. deserialize data = Inr r) \<and>
   deserialize (Malformed ''{not valid json'') = Inr (Raw VNull) \<and>
   deserialize (Parsed VUndefined) = Inr (Raw VNull) \<and>
   (\<forall>e. JSON_parse data = Inl e \<longrightarrow> deserialize data = Inr (Raw VNull)) \<and>
   (\<forall>e. deserialize_try data = Inl e \<longrightarrow> deserialize data = Inr (Raw VNull))"
  by (auto simp: deserialize_def deserialize_try_def split: sum.splits)

theorem deserialize_never_throws_witness:
  "JSON_parse (Malformed ''{'') = Inl SyntaxError \<and>
   deserialize_try (Malformed ''{'') = Inl SyntaxError \<and>
   deserialize (Malformed ''{'') = Inr (Raw VNull)"
  using deserialize_never_throws [of "Malformed ''{''"]
  by (simp add: deserialize_try_def)

section \<open>Plain data passes unchanged\<close>

lemma update_fresh: "k \<notin> fst ` set r \<Longrightarrow> AList.update k v r = r @ [(k, v)]"
  by (induction r) auto

lemma define_all_acc:
  "distinct (map fst (acc @ kvs)) \<Longrightarrow>
   foldl (\<lambda>acc (k, v). AList.update k v acc) acc kvs = acc @ kvs"
proof (induction kvs arbitrary: acc)
  case Nil
  then show ?case by simp
next
  case (Cons p kvs)
  obtain k v where p: "p = (k, v)" by (cases p)
  have fresh: "k \<notin> fst ` set acc" using Cons.prems p by auto
  have "distinct (map fst ((acc @ [(k, v)]) @ kvs))" using Cons.prems p by simp
  from Cons.IH [OF this] show ?case using p fresh by (simp add: update_fresh)
qed

lemma define_all_distinct: "distinct (map fst kvs) \<Longrightarrow> define_all kvs = kvs"
  using define_all_acc [of "[]" kvs] by (simp add: define_all_def)


lemma json_roundtrip: "json_compatible v \<Longrightarrow> \<exists>j. to_json v = Some j \<and> of_json j = v"
proof (induction v rule: json_compatible.induct)
  case (5 t xs)
  have "\<forall>x\<in>set xs. \<exists>j. to_json x = Some j \<and> of_json j = x"
    using 5 by (auto simp: list_all_iff)
  then have "map (of_json \<circ> (\<lambda>x. case to_json x of None \<Rightarrow> JNull | Some j \<Rightarrow> j)) xs = xs"
    by (intro map_idI) auto
  then show ?case using 5 by simp
next
  case (6 c kvs)
  have a: "\<forall>p\<in>set kvs. \<exists>j. to_json (snd p) = Some j \<and> of_json j = snd p"
    using 6 by (auto simp: list_all_iff)
  have "map (\<lambda>(k, j). (k, of_json j))
          (concat (map (\<lambda>(k, v). case to_json v of None \<Rightarrow> [] | Some j \<Rightarrow> [(k, j)]) kvs)) = kvs"
    using a by (induction kvs) auto
  then show ?case using 6 by (simp add: define_all_distinct)
qed auto


text \<open>
  C8. Message pass-through: for every JSON-compatible message, decoding the text that
  \<^verbatim>\<open>serializeMessage\<close> returns resolves to a result tagged \<^verbatim>\<open>message\<close> that carries
  the message unchanged.
\<close>

theorem message_pass_through:
  "json_compatible msg \<Longrightarrow> deserialize (Text (serializeMessage msg)) = Inr (Message msg)"
proof -
  assume "json_compatible msg"
  then obtain j where j: "to_json msg = Some j" "of_json j = msg"
    using json_roundtrip by blast
  have "serializeMessage msg = JObject [(''___type___'', JString ''message''), (''message'', j)]"
    by (simp add: serializeMessage_def stringify_object_def j)
  then show ?thesis
    by (simp add: deserialize_def deserialize_try_def define_all_def lookup_def j)
qed

theorem message_pass_through_witness:
  "json_compatible (VObject ''Object'' [(''label'', VString ''rtvi-ai''), (''data'', VArray False [VNumber (Finite 1), VNull])]) \<and>
   deserialize (Text (serializeMessage (VObject ''Object'' [(''label'', VString ''rtvi-ai''), (''data'', VArray False [VNumber (Finite 1), VNull])])))
     = Inr (Message (VObject ''Object'' [(''label'', VString ''rtvi-ai''), (''data'', VArray False [VNumber (Finite 1), VNull])]))"
  using message_pass_through [of "VObject ''Object'' [(''label'', VString ''rtvi-ai''), (''data'', VArray False [VNumber (Finite 1), VNull])]"]
  by simp




lemma dec_nonempty: "dec n \<noteq> []"
  by (subst dec.simps) simp





section \<open>Values at the level of a field\<close>







section \<open>Audio\<close>

lemma length_charCodes: "length (charCodes s) = length s"
  by (simp add: charCodes_def)






section \<open>Fields with the marker prefix\<close>


lemma marker_prefixed_iff: "marker_prefixed k \<longleftrightarrow> prefix ''__'' k"
  by (auto simp: marker_prefixed_def prefix_def)


lemma has_key_map_of: "has_key kvs k \<longleftrightarrow> map_of kvs k \<noteq> None"
  by (simp add: has_key_def map_of_eq_None_iff)





section \<open>Objects as maps\<close>

lemma map_of_assign:
  "map_of (assign r k v) = (if k = ''__proto__'' then map_of r else (map_of r)(k \<mapsto> v))"
  by (simp add: assign_def update_conv')

lemma distinct_assign: "distinct (map fst r) \<Longrightarrow> distinct (map fst (assign r k v))"
  by (simp add: assign_def distinct_update)

lemma map_of_copy_fields:
  "''__proto__'' \<notin> set ws \<Longrightarrow>
   map_of (foldl (\<lambda>fr wk. if P wk then assign fr wk (g wk) else fr) init ws) k =
     (if k \<in> set ws \<and> P k then Some (g k) else map_of init k)"
  by (induction ws arbitrary: init) (auto simp: map_of_assign)

lemma distinct_copy_fields:
  "distinct (map fst init) \<Longrightarrow>
   distinct (map fst (foldl (\<lambda>fr wk. if P wk then assign fr wk (g wk) else fr) init ws))"
  by (induction ws arbitrary: init) (auto simp: distinct_assign)

lemma proto_not_well_known: "''__proto__'' \<notin> set well_known"
  by (simp add: well_known_def)


lemma map_of_base_fields:
  "map_of (base_fields (VObject c kvs) tag) k =
     (if k \<in> set well_known \<and> has_key kvs k then Some (lookup kvs k)
      else if k = ''___frame___'' then Some tag else None)"
  unfolding base_fields_def
  by (simp add: map_of_copy_fields [OF proto_not_well_known])



section \<open>The loop of \<^verbatim>\<open>_dictToFrame\<close>\<close>


lemma not_prefixed_not_proto: "\<not> marker_prefixed k \<Longrightarrow> k \<noteq> ''__proto__''"
  by (auto simp: marker_prefixed_def)

lemma frame_key_prefixed: "marker_prefixed ''___frame___''"
  by (simp add: marker_prefixed_def)






section \<open>Decoding a frame envelope\<close>


lemma dictToFrame_not_object: "(\<And>c fd. v \<noteq> VObject c fd) \<Longrightarrow> dictToFrame v = Inr VNull \<or> dictToFrame v = Inl TypeError"
  by (cases v) auto




















section \<open>The loop of \<^verbatim>\<open>_frameToDict\<close>\<close>

lemma marker_prefixed_markers:
  "marker_prefixed (bytes_marker k)" "marker_prefixed (tuple_marker k)"
  by (simp_all add: marker_prefixed_def bytes_marker_def tuple_marker_def)

lemma markers_not_proto: "bytes_marker k \<noteq> ''__proto__''" "tuple_marker k \<noteq> ''__proto__''"
proof -
  have "length (bytes_marker k) \<noteq> length ''__proto__''" by (simp add: bytes_marker_def)
  then show "bytes_marker k \<noteq> ''__proto__''" by metis
  have "length (tuple_marker k) \<noteq> length ''__proto__''" by (simp add: tuple_marker_def)
  then show "tuple_marker k \<noteq> ''__proto__''" by metis
qed

lemma marker_inj:
  "bytes_marker k = bytes_marker k' \<longleftrightarrow> k = k'"
  "tuple_marker k = tuple_marker k' \<longleftrightarrow> k = k'"
  by (simp_all add: bytes_marker_def tuple_marker_def)

lemma markers_differ: "bytes_marker k \<noteq> tuple_marker k'"
proof
  assume "bytes_marker k = tuple_marker k'"
  then have "rev (bytes_marker k) = rev (tuple_marker k')" by simp
  then show False by (simp add: bytes_marker_def tuple_marker_def)
qed

lemma map_of_mark:
  "map_of (mark key v fd) k =
     (if is_tuple v \<and> k = tuple_marker key then Some (VBool True)
      else if is_bytes v \<and> k = bytes_marker key then Some (VBool True)
      else map_of fd k)"
  by (simp add: mark_def Let_def map_of_assign markers_not_proto)

lemma distinct_mark: "distinct (map fst fd) \<Longrightarrow> distinct (map fst (mark key v fd))"
  by (simp add: mark_def Let_def distinct_assign)

lemma frameToDict_loop_skip:
  "in_object key fd \<or> marker_prefixed key \<Longrightarrow>
   frameToDict_loop ((key, v) # rest) fd = frameToDict_loop rest fd"
  by simp

lemma frameToDict_loop_step:
  "\<not> (in_object key fd \<or> marker_prefixed key) \<Longrightarrow>
   frameToDict_loop ((key, v) # rest) fd =
     (case serializeValue v of
        Inl e \<Rightarrow> Inl e
      | Inr sv \<Rightarrow> frameToDict_loop rest (assign (mark key v fd) key sv))"
  by simp

lemma marker_name_prefixed: "marker_name k \<Longrightarrow> marker_prefixed k"
  by (auto simp: marker_name_def marker_prefixed_markers)

lemma map_of_step:
  assumes "k \<noteq> key" and "\<not> marker_name k"
  shows "map_of (assign (mark key v fd) key sv) k = map_of fd k"
  using assms by (auto simp: map_of_assign map_of_mark marker_name_def)

lemma has_key_assign: "has_key r k \<Longrightarrow> has_key (assign r key v) k"
  by (simp add: has_key_map_of map_of_assign)

lemma has_key_mark: "has_key fd k \<Longrightarrow> has_key (mark key v fd) k"
  by (simp add: has_key_map_of map_of_mark)

lemma in_object_step:
  "in_object k fd \<Longrightarrow> in_object k (assign (mark key v fd) key sv)"
  unfolding in_object_def using has_key_assign has_key_mark by blast

lemma frameToDict_loop_keep:
  "frameToDict_loop rest fd = Inr fd' \<Longrightarrow> \<not> marker_name k \<Longrightarrow>
   map_of rest k = None \<or> marker_prefixed k \<or> in_object k fd \<Longrightarrow>
   map_of fd' k = map_of fd k"
proof (induction rest arbitrary: fd)
  case Nil
  then show ?case by simp
next
  case (Cons p rest)
  obtain key v where p: "p = (key, v)" by (cases p)
  show ?case
  proof (cases "in_object key fd \<or> marker_prefixed key")
    case True
    then have "frameToDict_loop rest fd = Inr fd'"
      using Cons.prems(1) p frameToDict_loop_skip [OF True] by simp
    moreover have "map_of rest k = None \<or> marker_prefixed k \<or> in_object k fd"
      using Cons.prems(3) p by (auto split: if_splits)
    ultimately show ?thesis using Cons.IH Cons.prems(2) by blast
  next
    case False
    then obtain sv where sv: "serializeValue v = Inr sv"
      "frameToDict_loop rest (assign (mark key v fd) key sv) = Inr fd'"
      using Cons.prems(1) p frameToDict_loop_step [OF False] by (auto split: sum.splits)
    have ne: "k \<noteq> key" using False Cons.prems(3) p by auto
    have "map_of rest k = None \<or> marker_prefixed k \<or> in_object k (assign (mark key v fd) key sv)"
      using Cons.prems(3) p ne in_object_step by auto
    from Cons.IH [OF sv(2) Cons.prems(2) this] show ?thesis
      using map_of_step [OF ne Cons.prems(2)] by simp
  qed
qed


lemma not_prefixed_not_marker: "\<not> marker_prefixed k \<Longrightarrow> \<not> marker_name k"
  using marker_name_prefixed by blast

lemma not_in_object_step:
  assumes "\<not> in_object k fd" and "k \<noteq> key" and "\<not> marker_prefixed k"
  shows "\<not> in_object k (assign (mark key v fd) key sv)"
  using assms map_of_step [OF assms(2) not_prefixed_not_marker [OF assms(3)], of v fd sv]
  by (simp add: in_object_def has_key_map_of)

lemma map_of_step_marker:
  assumes "k \<noteq> key" and "\<not> marker_prefixed key"
  shows "map_of (assign (mark key v fd) key sv) (bytes_marker k) = map_of fd (bytes_marker k)"
    and "map_of (assign (mark key v fd) key sv) (tuple_marker k) = map_of fd (tuple_marker k)"
proof -
  have "bytes_marker k \<noteq> key" "tuple_marker k \<noteq> key"
    using assms(2) marker_prefixed_markers by metis+
  then show "map_of (assign (mark key v fd) key sv) (bytes_marker k) = map_of fd (bytes_marker k)"
    and "map_of (assign (mark key v fd) key sv) (tuple_marker k) = map_of fd (tuple_marker k)"
    using assms(1) markers_differ [of k key] markers_differ [of key k]
      not_prefixed_not_proto [OF assms(2)]
    by (simp_all add: map_of_assign map_of_mark marker_inj)
qed

lemma frameToDict_loop_marker_keep:
  "frameToDict_loop rest fd = Inr fd' \<Longrightarrow>
   map_of rest k = None \<or> marker_prefixed k \<or> in_object k fd \<Longrightarrow>
   map_of fd' (bytes_marker k) = map_of fd (bytes_marker k) \<and>
   map_of fd' (tuple_marker k) = map_of fd (tuple_marker k)"
proof (induction rest arbitrary: fd)
  case Nil
  then show ?case by simp
next
  case (Cons p rest)
  obtain key v where p: "p = (key, v)" by (cases p)
  show ?case
  proof (cases "in_object key fd \<or> marker_prefixed key")
    case True
    then have l: "frameToDict_loop rest fd = Inr fd'"
      using Cons.prems(1) p frameToDict_loop_skip [OF True] by simp
    have "map_of rest k = None \<or> marker_prefixed k \<or> in_object k fd"
      using Cons.prems(2) p by (auto split: if_splits)
    from Cons.IH [OF l this] show ?thesis .
  next
    case False
    then obtain sv where sv: "frameToDict_loop rest (assign (mark key v fd) key sv) = Inr fd'"
      using Cons.prems(1) p frameToDict_loop_step [OF False] by (auto split: sum.splits)
    have np: "\<not> marker_prefixed key" using False by simp
    have ne: "k \<noteq> key" using False Cons.prems(2) p by auto
    have "map_of rest k = None \<or> marker_prefixed k \<or> in_object k (assign (mark key v fd) key sv)"
      using Cons.prems(2) p ne in_object_step by auto
    from Cons.IH [OF sv this] show ?thesis
      unfolding map_of_step_marker [OF ne np] .
  qed
qed

lemma frameToDict_loop_field:
  "frameToDict_loop rest fd = Inr fd' \<Longrightarrow> distinct (map fst rest) \<Longrightarrow>
   map_of rest k = Some v \<Longrightarrow> \<not> marker_prefixed k \<Longrightarrow> \<not> in_object k fd \<Longrightarrow>
   \<exists>sv. serializeValue v = Inr sv \<and> map_of fd' k = Some sv \<and>
     map_of fd' (bytes_marker k) = (if is_bytes v then Some (VBool True) else map_of fd (bytes_marker k)) \<and>
     map_of fd' (tuple_marker k) = (if is_tuple v then Some (VBool True) else map_of fd (tuple_marker k))"
proof (induction rest arbitrary: fd)
  case Nil
  then show ?case by simp
next
  case (Cons p rest)
  obtain key v' where p: "p = (key, v')" by (cases p)
  show ?case
  proof (cases "k = key")
    case True
    then have v: "v' = v" using Cons.prems(3) p by simp
    have "\<not> (in_object k fd \<or> marker_prefixed k)" using Cons.prems(4,5) by simp
    from frameToDict_loop_step [OF this, of v rest]
    obtain sv where sv: "serializeValue v = Inr sv"
      "frameToDict_loop rest (assign (mark k v fd) k sv) = Inr fd'"
      using Cons.prems(1) p True v by (auto split: sum.splits)
    have none: "map_of rest k = None" using Cons.prems(2) p True by (simp add: map_of_eq_None_iff)
    have np: "k \<noteq> ''__proto__''" using not_prefixed_not_proto [OF Cons.prems(4)] .
    have a: "map_of fd' k = Some sv"
      using frameToDict_loop_keep [OF sv(2) not_prefixed_not_marker [OF Cons.prems(4)]] none np
      by (simp add: map_of_assign)
    have nb: "bytes_marker k \<noteq> k" "tuple_marker k \<noteq> k"
      using marker_prefixed_markers Cons.prems(4) by metis+
    have b: "map_of fd' (bytes_marker k) = map_of (assign (mark k v fd) k sv) (bytes_marker k)"
      "map_of fd' (tuple_marker k) = map_of (assign (mark k v fd) k sv) (tuple_marker k)"
      using frameToDict_loop_marker_keep [OF sv(2)] none by simp_all
    have c: "map_of (assign (mark k v fd) k sv) (bytes_marker k) =
        (if is_bytes v then Some (VBool True) else map_of fd (bytes_marker k))"
      "map_of (assign (mark k v fd) k sv) (tuple_marker k) =
        (if is_tuple v then Some (VBool True) else map_of fd (tuple_marker k))"
      using nb markers_differ [of k k] np
      by (simp_all add: map_of_assign map_of_mark)
    show ?thesis using sv(1) a b c by simp
  next
    case False
    then have m: "map_of rest k = Some v" using Cons.prems(3) p by simp
    have d: "distinct (map fst rest)" using Cons.prems(2) by simp
    show ?thesis
    proof (cases "in_object key fd \<or> marker_prefixed key")
      case True
      then have "frameToDict_loop rest fd = Inr fd'"
        using Cons.prems(1) p frameToDict_loop_skip [OF True] by simp
      from Cons.IH [OF this d m Cons.prems(4,5)] show ?thesis .
    next
      case F: False
      then obtain sv where sv: "frameToDict_loop rest (assign (mark key v' fd) key sv) = Inr fd'"
        using Cons.prems(1) p frameToDict_loop_step [OF F] by (auto split: sum.splits)
      have ni: "\<not> in_object k (assign (mark key v' fd) key sv)"
        using not_in_object_step [OF Cons.prems(5) False Cons.prems(4)] .
      have np: "\<not> marker_prefixed key" using F by simp
      note mk = map_of_step_marker [OF False np, of v' fd sv]
      from Cons.IH [OF sv d m Cons.prems(4) ni] show ?thesis unfolding mk .
    qed
  qed
qed

lemma frameToDict_loop_distinct:
  "frameToDict_loop rest fd = Inr fd' \<Longrightarrow> distinct (map fst fd) \<Longrightarrow> distinct (map fst fd')"
proof (induction rest arbitrary: fd)
  case Nil
  then show ?case by simp
next
  case (Cons p rest)
  obtain key v where p: "p = (key, v)" by (cases p)
  show ?case
  proof (cases "in_object key fd \<or> marker_prefixed key")
    case True
    then show ?thesis using Cons p frameToDict_loop_skip [OF True] by simp
  next
    case False
    then obtain sv where sv: "frameToDict_loop rest (assign (mark key v fd) key sv) = Inr fd'"
      using Cons.prems(1) p frameToDict_loop_step [OF False] by (auto split: sum.splits)
    show ?thesis
      by (rule Cons.IH [OF sv]) (simp add: distinct_assign distinct_mark Cons.prems(2))
  qed
qed





lemma frameToDict_loop_succeeds:
  "(\<And>k v. (k, v) \<in> set rest \<Longrightarrow> \<not> marker_prefixed k \<Longrightarrow> \<not> in_object k fd \<Longrightarrow>
      \<exists>sv. serializeValue v = Inr sv) \<Longrightarrow>
   \<exists>fd'. frameToDict_loop rest fd = Inr fd'"
proof (induction rest arbitrary: fd)
  case Nil
  then show ?case by simp
next
  case (Cons p rest)
  obtain key v where p: "p = (key, v)" by (cases p)
  show ?case
  proof (cases "in_object key fd \<or> marker_prefixed key")
    case True
    have "\<exists>fd'. frameToDict_loop rest fd = Inr fd'"
      by (rule Cons.IH) (use Cons.prems in auto)
    then show ?thesis using p frameToDict_loop_skip [OF True] by simp
  next
    case False
    then obtain sv where sv: "serializeValue v = Inr sv" using Cons.prems [of key v] p by auto
    have "\<exists>fd'. frameToDict_loop rest (assign (mark key v fd) key sv) = Inr fd'"
    proof (rule Cons.IH)
      fix k' v'
      assume h: "(k', v') \<in> set rest" "\<not> marker_prefixed k'"
        "\<not> in_object k' (assign (mark key v fd) key sv)"
      have "\<not> in_object k' fd" using h(3) in_object_step by blast
      then show "\<exists>sv. serializeValue v' = Inr sv" using Cons.prems [of k' v'] h by simp
    qed
    then show ?thesis using p sv frameToDict_loop_step [OF False] by simp
  qed
qed

lemma map_of_stringify:
  "distinct (map fst kvs) \<Longrightarrow>
   map_of (concat (map (\<lambda>(k, v). case to_json v of None \<Rightarrow> [] | Some j \<Rightarrow> [(k, j)]) kvs)) k =
     (case map_of kvs k of None \<Rightarrow> None | Some v \<Rightarrow> to_json v)"
proof (induction kvs)
  case Nil
  then show ?case by simp
next
  case (Cons p kvs)
  obtain k' v' where p: "p = (k', v')" by (cases p)
  have ih: "map_of (concat (map (\<lambda>(k, v). case to_json v of None \<Rightarrow> [] | Some j \<Rightarrow> [(k, j)]) kvs)) k =
     (case map_of kvs k of None \<Rightarrow> None | Some v \<Rightarrow> to_json v)"
    using Cons by simp
  have nk: "map_of kvs k' = None" using Cons.prems p by (simp add: map_of_eq_None_iff)
  show ?case
  proof (cases "k = k'")
    case True
    then show ?thesis using p ih nk by (cases "to_json v'") simp_all
  next
    case False
    then show ?thesis using p ih by (cases "to_json v'") simp_all
  qed
qed

lemma distinct_base_fields: "distinct (map fst (base_fields frame tag))"
  unfolding base_fields_def by (rule distinct_copy_fields) simp

section \<open>Encoding a frame\<close>

lemma not_in_base_fields:
  assumes "\<not> marker_prefixed key" and "key \<notin> set well_known" and "key \<notin> set object_prototype_keys"
  shows "\<not> in_object key (base_fields (VObject c kvs) tag)"
proof -
  have "key \<noteq> ''___frame___''" using assms(1) frame_key_prefixed by blast
  then have "map_of (base_fields (VObject c kvs) tag) key = None"
    using assms(2) by (simp add: map_of_base_fields)
  then show ?thesis using assms(3) by (simp add: in_object_def has_key_map_of)
qed

lemma serialize_object:
  assumes "constructor_name (VObject c kvs) = Inr tag"
    and "frameToDict_loop kvs (base_fields (VObject c kvs) tag) = Inr fd"
  shows "serialize (VObject c kvs) = Inr (Some (stringify_object fd))"
  using assms by (simp add: serialize_def frameToDict_def stringify_object_def)

lemma no_rule_string: "no_rule f \<Longrightarrow> serializeValue f = Inr (VString (ToString f))"
  by (cases f) auto

text \<open>
  C9, as the code has it. Take a frame whose \<^verbatim>\<open>constructor.name\<close> can be read and none
  of whose serialized fields raises. A field that holds a value with no serialization
  rule, and whose name is not marker-prefixed, not a base field and not a name
  inherited from \<^verbatim>\<open>Object.prototype\<close>, is written in the payload as the string coercion
  of the value, and the payload is not \<^verbatim>\<open>null\<close>.
\<close>

theorem unsupported_value_as_string:
  assumes "distinct (map fst kvs)"
    and "constructor_name (VObject c kvs) = Inr tag"
    and "(key, f) \<in> set kvs" and "no_rule f"
    and "\<not> marker_prefixed key" and "key \<notin> set well_known"
    and "key \<notin> set object_prototype_keys"
    and "\<And>k v. (k, v) \<in> set kvs \<Longrightarrow> \<not> marker_prefixed k \<Longrightarrow> \<exists>sv. serializeValue v = Inr sv"
  shows "\<exists>fields. serialize (VObject c kvs) = Inr (Some (JObject fields)) \<and>
           map_of fields key = Some (JString (ToString f))"
proof -
  let ?base = "base_fields (VObject c kvs) tag"
  have "\<exists>fd. frameToDict_loop kvs ?base = Inr fd"
    by (rule frameToDict_loop_succeeds) (rule assms(8))
  then obtain fd where fd: "frameToDict_loop kvs ?base = Inr fd" by blast
  have m: "map_of kvs key = Some f" using assms(1,3) by simp
  obtain sv where sv: "serializeValue f = Inr sv" "map_of fd key = Some sv"
    using frameToDict_loop_field [OF fd assms(1) m assms(5) not_in_base_fields [OF assms(5,6,7)]]
    by blast
  have s: "sv = VString (ToString f)" using sv(1) no_rule_string [OF assms(4)] by simp
  have d: "distinct (map fst fd)"
    using frameToDict_loop_distinct [OF fd distinct_base_fields] .
  let ?fields = "concat (map (\<lambda>(k, v). case to_json v of None \<Rightarrow> [] | Some j \<Rightarrow> [(k, j)]) fd)"
  have "serialize (VObject c kvs) = Inr (Some (JObject ?fields))"
    using serialize_object [OF assms(2) fd] by (simp add: stringify_object_def)
  moreover have "map_of ?fields key = Some (JString (ToString f))"
    using map_of_stringify [OF d, of key] sv(2) s by simp
  ultimately show ?thesis by blast
qed

theorem unsupported_value_as_string_witness:
  "constructor_name (VObject ''F'' [(''cb'', VFunction ''f'' ''function f() {}'')]) = Inr (VString ''F'') \<and>
   no_rule (VFunction ''f'' ''function f() {}'') \<and>
   (\<exists>fields. serialize (VObject ''F'' [(''cb'', VFunction ''f'' ''function f() {}'')])
        = Inr (Some (JObject fields)) \<and>
      map_of fields ''cb'' = Some (JString ''function f() {}''))"
proof -
  let ?kvs = "[(''cb'', VFunction ''f'' ''function f() {}'')]"
  have cn: "constructor_name (VObject ''F'' ?kvs) = Inr (VString ''F'')" by simp
  have "\<exists>fields. serialize (VObject ''F'' ?kvs) = Inr (Some (JObject fields)) \<and>
      map_of fields ''cb'' = Some (JString (ToString (VFunction ''f'' ''function f() {}'')))"
  proof (rule unsupported_value_as_string [OF _ cn])
    show "\<And>k v. (k, v) \<in> set ?kvs \<Longrightarrow> \<not> marker_prefixed k \<Longrightarrow> \<exists>sv. serializeValue v = Inr sv"
      by auto
  qed (simp_all add: marker_prefixed_def well_known_def object_prototype_keys_def)
  then show ?thesis using cn by simp
qed

theorem base_field_function_counterexample:
  "serialize (VObject ''F'' [(''name'', VFunction ''f'' ''function f() {}'')])
     = Inr (Some (JObject [(''___frame___'', JString ''F'')]))"
  by code_simp

section \<open>Round trip of a frame\<close>















end
